theory Spec2Isabelle
  imports Complex_Main "HOL-Library.Word" "HOL-Library.Sublist"
begin

section \<open>Shared data\<close>

text \<open>
  Exceptions are values. \<open>AttributeError\<close> is what Python raises for a method call on
  \<open>None\<close>, \<open>ValueError\<close> what \<open>np.frombuffer\<close> raises for a buffer whose size is
  not a multiple of the element size, and \<open>Exception msg\<close> is the explicit
  \<open>raise Exception(msg)\<close> of \<open>SnipsAsr.onStart\<close>.
\<close>

datatype error = AttributeError | ValueError | Exception string

text \<open>
  The Python values whose truth value or string form the code depends on: a string, an
  integer or \<open>None\<close>. \<open>truthy\<close> is Python's truth value, \<open>str\<close> what an f-string
  inserts for the value.
\<close>

datatype pyval = PStr string | PInt int | PNone

fun truthy :: "pyval \<Rightarrow> bool" where
  "truthy (PStr t) = (t \<noteq> [])"
| "truthy (PInt i) = (i \<noteq> 0)"
| "truthy PNone = False"

fun decimal :: "nat \<Rightarrow> string" where
  "decimal n =
     (if n < 10 then [''0123456789'' ! n]
      else decimal (n div 10) @ [''0123456789'' ! (n mod 10)])"

declare decimal.simps [simp del]

fun str :: "pyval \<Rightarrow> string" where
  "str (PStr t) = t"
| "str (PInt i) = (if i < 0 then ''-'' @ decimal (nat (- i)) else decimal (nat i))"
| "str PNone = ''None''"

text \<open>\<open>DialogSession\<close> is read only for its user and device identifiers.\<close>

record DialogSession =
  user :: string
  deviceUid :: string

record ASRResult =
  resultText :: string
  session :: DialogSession
  likelihood :: real
  processingTime :: real

section \<open>CoquiAsr: the embedded engine\<close>

subsection \<open>Collaborators\<close>

text \<open>
  The \<open>stt\<close> model is an external capability. Its stream context is an abstract state
  \<open>'c\<close>; the four operations are parameters. \<open>createStream\<close> gives the state of a
  new stream context, \<open>intermediateDecode\<close> may change the state it inspects.
\<close>

record 'c stt =
  createStream :: 'c
  feedAudioContent :: "16 word list \<Rightarrow> 'c \<Rightarrow> 'c"
  intermediateDecode :: "'c \<Rightarrow> string \<times> 'c"
  finishStream :: "'c \<Rightarrow> string"

text \<open>
  Calls on collaborators are recorded in a trace, with the handle of the object they are
  made on (a recorder or a stream context, numbered in order of creation) and, for the
  two decoding calls, the text they returned.
\<close>

datatype effect =
    isAddRecorder: AddRecorder string nat
  | isCreateStream: CreateStream (sidOf: nat)
  | isFeed: FeedAudioContent (sidOf: nat) (samplesOf: "16 word list")
  | isIntermediate: IntermediateDecode (sidOf: nat) (textOf: string)
  | isPartial: PartialTextCaptured (sessionOf: DialogSession) (textOf: string)
      (likelihoodOf: int) (secondsOf: int)
  | isFinish: FinishStream (sidOf: nat) (textOf: string)
  | isEnd: End
  | isStop: StopRecording nat

text \<open>
  The engine object: the fields \<open>_model\<close>, \<open>_triggerFlag\<close> and \<open>_recorder\<close> of the
  class, the two counters that number the recorders and stream contexts created so far,
  and the trace. \<open>_model\<close> is \<open>None\<close> until \<open>onStart\<close> has loaded it; \<open>_recorder\<close>
  is \<open>None\<close> until the first \<open>decodeStream\<close> binds one.
\<close>

record 'c CoquiAsr =
  model :: "'c stt option"
  triggerFlag :: bool
  recorder :: "nat option"
  recorders :: nat
  streams :: nat
  trace :: "effect list"

definition log :: "effect \<Rightarrow> 'c CoquiAsr \<Rightarrow> 'c CoquiAsr" where
  "log e s = s\<lparr>trace := trace s @ [e]\<rparr>"

subsection \<open>Voice activity signals\<close>

text \<open>
  \<^verbatim>\<open>
  def onVadUp(self):
      self._triggerFlag.set()

  def onVadDown(self):
      if not self._triggerFlag.is_set():
          return
      self._recorder.stopRecording()
  \<close>
\<close>

definition coqui_onVadUp :: "'c CoquiAsr \<Rightarrow> 'c CoquiAsr" where
  "coqui_onVadUp s = s\<lparr>triggerFlag := True\<rparr>"

definition coqui_onVadDown :: "'c CoquiAsr \<Rightarrow> (error + unit) \<times> 'c CoquiAsr" where
  "coqui_onVadDown s =
     (if \<not> triggerFlag s then (Inr (), s)
      else case recorder s of
             None \<Rightarrow> (Inl AttributeError, s)
           | Some r \<Rightarrow> (Inr (), log (StopRecording r) s))"

subsection \<open>The decode loop\<close>

text \<open>
  \<open>np.frombuffer(chunk, np.int16)\<close>: two bytes make one 16-bit sample (low byte first;
  \<open>sint\<close> reads its signed value), and a
  buffer of odd size raises \<open>ValueError\<close>.
\<close>

fun frombuffer :: "8 word list \<Rightarrow> error + 16 word list" where
  "frombuffer [] = Inr []"
| "frombuffer [b] = Inl ValueError"
| "frombuffer (lo # hi # bs) =
     (case frombuffer bs of
        Inl e \<Rightarrow> Inl e
      | Inr ws \<Rightarrow> Inr (word_cat hi lo # ws))"

text \<open>
  What the decode loop meets, in order: a chunk pulled from the recorder, or a voice
  activity signal that another thread delivers between two pulls. The recorder's sequence
  is over when the list is; why it is over (timeout, stop request, exhaustion) is the
  recorder's business and makes no difference to the loop. An exception in the signalling
  thread does not reach the decoding thread, so only the state a signal leaves is kept.
\<close>

datatype vad = VadUp | VadDown

datatype step = Pull "8 word list" | Signal vad

fun deliver :: "vad \<Rightarrow> 'c CoquiAsr \<Rightarrow> 'c CoquiAsr" where
  "deliver VadUp s = coqui_onVadUp s"
| "deliver VadDown s = snd (coqui_onVadDown s)"

text \<open>
  \<^verbatim>\<open>
  for chunk in recorder:
      if not chunk:
          break
      streamContext.feedAudioContent(np.frombuffer(chunk, np.int16))
      result = streamContext.intermediateDecode()
      self.partialTextCaptured(session=session, text=result, likelihood=1, seconds=0)
  \<close>
  The loop carries the stream context and the variable \<open>result\<close>, which is \<open>None\<close>
  or the text of the latest intermediate decode.
\<close>

fun decodeLoop ::
  "'c stt \<Rightarrow> DialogSession \<Rightarrow> nat \<Rightarrow> step list \<Rightarrow> 'c \<Rightarrow> pyval \<Rightarrow> 'c CoquiAsr
     \<Rightarrow> (error + 'c \<times> pyval) \<times> 'c CoquiAsr" where
  "decodeLoop m ss sid [] ctx result s = (Inr (ctx, result), s)"
| "decodeLoop m ss sid (Signal v # its) ctx result s =
     decodeLoop m ss sid its ctx result (deliver v s)"
| "decodeLoop m ss sid (Pull chunk # its) ctx result s =
     (if chunk = [] then (Inr (ctx, result), s)
      else case frombuffer chunk of
             Inl e \<Rightarrow> (Inl e, s)
           | Inr samples \<Rightarrow>
               (let ctx1 = feedAudioContent m samples ctx;
                    s1 = log (FeedAudioContent sid samples) s;
                    (t, ctx2) = intermediateDecode m ctx1;
                    s2 = log (IntermediateDecode sid t) s1;
                    s3 = log (PartialTextCaptured ss t 1 0) s2
                in decodeLoop m ss sid its ctx2 (PStr t) s3))"

text \<open>
  \<^verbatim>\<open>
  def decodeStream(self, session):
      super().decodeStream(session)
      result = None
      with Stopwatch() as processingTime:
          with Recorder(self._timeout, session.user, session.deviceUid) as recorder:
              self.ASRManager.addRecorder(session.deviceUid, recorder)
              self._recorder = recorder
              streamContext = self._model.createStream()
              for chunk in recorder: ...
          text = streamContext.finishStream()
          self._triggerFlag.clear()
          self.end()
      return ASRResult(text=text, session=session, likelihood=1.0,
                       processingTime=processingTime.time) if result else None
  \<close>
  The stopwatch reading is the parameter \<open>elapsed\<close>. The base class's \<open>decodeStream\<close>
  and \<open>end\<close> touch none of the fields modelled here; \<open>end\<close> is recorded in the trace.
  An exception leaves the state as it was when it was raised.
\<close>

definition coqui_decodeStream ::
  "DialogSession \<Rightarrow> real \<Rightarrow> step list \<Rightarrow> 'c CoquiAsr \<Rightarrow> (error + ASRResult option) \<times> 'c CoquiAsr" where
  "coqui_decodeStream ss elapsed its s0 =
     (let rid = recorders s0;
          s1 = log (AddRecorder (deviceUid ss) rid) (s0\<lparr>recorders := Suc rid\<rparr>);
          s2 = s1\<lparr>recorder := Some rid\<rparr>
      in case model s2 of
           None \<Rightarrow> (Inl AttributeError, s2)
         | Some m \<Rightarrow>
             (let sid = streams s2;
                  s3 = log (CreateStream sid) (s2\<lparr>streams := Suc sid\<rparr>)
              in case decodeLoop m ss sid its (createStream m) PNone s3 of
                   (Inl e, s4) \<Rightarrow> (Inl e, s4)
                 | (Inr (ctx, result), s4) \<Rightarrow>
                     (let text = finishStream m ctx;
                          s5 = log (FinishStream sid text) s4;
                          s6 = s5\<lparr>triggerFlag := False\<rparr>;
                          s7 = log End s6
                      in (Inr (if truthy result
                               then Some \<lparr>resultText = text, session = ss, likelihood = 1,
                                         processingTime = elapsed\<rparr>
                               else None), s7))))"

subsection \<open>Reading the trace\<close>

text \<open>The calls made between two states: what the later trace has beyond the earlier.\<close>

definition sessionTrace :: "'c CoquiAsr \<Rightarrow> 'c CoquiAsr \<Rightarrow> effect list" where
  "sessionTrace s s' = drop (length (trace s)) (trace s')"

text \<open>The texts passed to \<open>partialTextCaptured\<close>, in order.\<close>

definition partialTexts :: "effect list \<Rightarrow> string list" where
  "partialTexts tr = map textOf (filter isPartial tr)"

text \<open>
  The chunks the loop decodes: those pulled before the recorder's sequence is over or its
  first empty chunk.
\<close>

fun pulled :: "step list \<Rightarrow> 8 word list list" where
  "pulled [] = []"
| "pulled (Signal v # its) = pulled its"
| "pulled (Pull chunk # its) = (if chunk = [] then [] else chunk # pulled its)"

text \<open>
  The stream context the loop leaves: each chunk's samples are fed to the context and the
  intermediate decode is taken on it, in the order of the chunks.
\<close>

fun fedThrough :: "'c stt \<Rightarrow> 8 word list list \<Rightarrow> 'c \<Rightarrow> 'c" where
  "fedThrough m [] ctx = ctx"
| "fedThrough m (chunk # chunks) ctx =
     (case frombuffer chunk of
        Inl e \<Rightarrow> ctx
      | Inr samples \<Rightarrow>
          fedThrough m chunks (snd (intermediateDecode m (feedAudioContent m samples ctx))))"

text \<open>The calls of the loop body.\<close>

definition isDecodeEvent :: "effect \<Rightarrow> bool" where
  "isDecodeEvent e = (isFeed e \<or> isIntermediate e \<or> isPartial e)"

text \<open>
  A list of calls made of whole loop bodies: a feed on the stream context, the
  intermediate decode on the same context, and the partial event carrying the text just
  decoded, with likelihood 1 and 0 seconds.
\<close>

fun tripled :: "DialogSession \<Rightarrow> nat \<Rightarrow> effect list \<Rightarrow> bool" where
  "tripled ss sid [] = True"
| "tripled ss sid (a # b # c # es) =
     (isFeed a \<and> sidOf a = sid \<and> isIntermediate b \<and> sidOf b = sid \<and>
      c = PartialTextCaptured ss (textOf b) 1 0 \<and> tripled ss sid es)"
| "tripled ss sid _ = False"

text \<open>The stream context a call is made on, if it is made on one.\<close>

fun streamOf :: "effect \<Rightarrow> nat option" where
  "streamOf (CreateStream i) = Some i"
| "streamOf (FeedAudioContent i w) = Some i"
| "streamOf (IntermediateDecode i t) = Some i"
| "streamOf (FinishStream i t) = Some i"
| "streamOf _ = None"

definition onStream :: "effect \<Rightarrow> bool" where
  "onStream e = (streamOf e \<noteq> None)"

definition finishCount :: "nat \<Rightarrow> effect list \<Rightarrow> nat" where
  "finishCount i tr = length (filter (\<lambda>e. isFinish e \<and> streamOf e = Some i) tr)"


text \<open>
  What the loop body and the signals arriving during it may call: a stop request, a
  partial event of this session with likelihood 1 and 0 seconds, or a feed or an
  intermediate decode on this session's stream context.
\<close>

definition loopCall :: "DialogSession \<Rightarrow> nat \<Rightarrow> effect \<Rightarrow> bool" where
  "loopCall ss sid e =
     (isStop e \<or>
      (isPartial e \<and> sessionOf e = ss \<and> likelihoodOf e = 1 \<and> secondsOf e = 0) \<or>
      ((isFeed e \<or> isIntermediate e) \<and> sidOf e = sid))"

definition loopCalls :: "DialogSession \<Rightarrow> nat \<Rightarrow> effect list \<Rightarrow> bool" where
  "loopCalls ss sid new = (\<forall>e \<in> set new. loopCall ss sid e)"

subsection \<open>An engine to run sessions on\<close>

text \<open>
  A stream context that counts the samples fed. Its hypothesis is \<open>hello\<close> after one
  sample and is withdrawn when more audio arrives.
\<close>

definition countingStt :: "nat stt" where
  "countingStt =
     \<lparr>createStream = 0,
      feedAudioContent = (\<lambda>samples n. n + length samples),
      intermediateDecode = (\<lambda>n. (if n = 1 then ''hello'' else [], n)),
      finishStream = (\<lambda>n. if n = 1 then ''hello'' else [])\<rparr>"

definition started :: "nat CoquiAsr" where
  "started = \<lparr>model = Some countingStt, triggerFlag = False, recorder = None,
              recorders = 0, streams = 0, trace = []\<rparr>"

definition kitchen :: DialogSession where
  "kitchen = \<lparr>user = ''alice'', deviceUid = ''kitchen''\<rparr>"

text \<open>
  Two sessions on that engine. In the first, voice is signalled up, one chunk of one
  sample is decoded, voice goes up again and down, and the recorder's sequence ends with
  an empty chunk. In the second, a second chunk arrives before the sequence is over.
\<close>

definition voiced :: "step list" where
  "voiced = [Signal VadUp, Pull [1, 0], Signal VadUp, Signal VadDown, Pull [], Pull [7]]"

definition hello :: ASRResult where
  "hello = \<lparr>resultText = ''hello'', session = kitchen, likelihood = 1, processingTime = 2\<rparr>"

definition afterHello :: "nat CoquiAsr" where
  "afterHello =
     \<lparr>model = Some countingStt, triggerFlag = False, recorder = Some 0, recorders = 1,
      streams = 1,
      trace = [AddRecorder ''kitchen'' 0, CreateStream 0, FeedAudioContent 0 [1],
               IntermediateDecode 0 ''hello'', PartialTextCaptured kitchen ''hello'' 1 0,
               StopRecording 0, FinishStream 0 ''hello'', End]\<rparr>"

definition withdrawn :: "step list" where
  "withdrawn = [Pull [1, 0], Pull [2, 0]]"

definition afterWithdrawn :: "nat CoquiAsr" where
  "afterWithdrawn =
     \<lparr>model = Some countingStt, triggerFlag = False, recorder = Some 0, recorders = 1,
      streams = 1,
      trace = [AddRecorder ''kitchen'' 0, CreateStream 0, FeedAudioContent 0 [1],
               IntermediateDecode 0 ''hello'', PartialTextCaptured kitchen ''hello'' 1 0,
               FeedAudioContent 0 [2], IntermediateDecode 0 [],
               PartialTextCaptured kitchen [] 1 0, FinishStream 0 [], End]\<rparr>"

text \<open>
  A second engine, whose hypothesis is \<open>hi\<close> whatever it has heard and whose final
  transcript after two samples is \<open>final\<close>, started with the trigger flag set; the
  result of the two-chunk session on it, and the state that session leaves.
\<close>

definition draftingStt :: "nat stt" where
  "draftingStt =
     \<lparr>createStream = 0,
      feedAudioContent = (\<lambda>samples n. n + length samples),
      intermediateDecode = (\<lambda>n. (''hi'', n)),
      finishStream = (\<lambda>n. if n = 2 then ''final'' else [])\<rparr>"

definition drafting :: "nat CoquiAsr" where
  "drafting = \<lparr>model = Some draftingStt, triggerFlag = True, recorder = None,
               recorders = 0, streams = 0, trace = []\<rparr>"

definition final :: ASRResult where
  "final = \<lparr>resultText = ''final'', session = kitchen, likelihood = 1, processingTime = 2\<rparr>"

definition afterFinal :: "nat CoquiAsr" where
  "afterFinal =
     \<lparr>model = Some draftingStt, triggerFlag = False, recorder = Some 0, recorders = 1,
      streams = 1,
      trace = [AddRecorder ''kitchen'' 0, CreateStream 0, FeedAudioContent 0 [1],
               IntermediateDecode 0 ''hi'', PartialTextCaptured kitchen ''hi'' 1 0,
               FeedAudioContent 0 [2], IntermediateDecode 0 ''hi'',
               PartialTextCaptured kitchen ''hi'' 1 0, FinishStream 0 ''final'', End]\<rparr>"

section \<open>SnipsAsr: the delegated engine\<close>

text \<open>
  What the engine reads from its managers: \<open>LanguageManager.activeLanguage\<close>,
  \<open>Commons.rootDir()\<close> and \<open>ConfigManager.getAliceConfigByName\<close>.
\<close>

record SnipsEnv =
  activeLanguage :: string
  rootDir :: string
  getAliceConfigByName :: "string \<Rightarrow> pyval"

text \<open>
  The engine object: the field \<open>_listening\<close>, the number of \<open>time.sleep(0.1)\<close> calls
  made so far, and the calls \<open>runSubprocess(name, cmd, autoRestart)\<close> made on the
  subprocess manager.
\<close>

record SnipsAsr =
  listening :: bool
  naps :: nat
  subprocesses :: "(string \<times> string \<times> bool) list"

text \<open>
  \<^verbatim>\<open>
  def onStartListening(self, session):
      self._listening = True

  def onAsrToggleOff(self, deviceUid: str):
      self._listening = False
  \<close>
\<close>

definition snips_onStartListening :: "DialogSession \<Rightarrow> SnipsAsr \<Rightarrow> SnipsAsr" where
  "snips_onStartListening ss s = s\<lparr>listening := True\<rparr>"

definition snips_onAsrToggleOff :: "string \<Rightarrow> SnipsAsr \<Rightarrow> SnipsAsr" where
  "snips_onAsrToggleOff uid s = s\<lparr>listening := False\<rparr>"

text \<open>
  The calls other threads make on the engine while \<open>decodeStream\<close> sleeps. A schedule
  gives, for each sleep, the calls that arrive during it.
\<close>

datatype toggle = StartListening DialogSession | AsrToggleOff string

fun arrive :: "toggle \<Rightarrow> SnipsAsr \<Rightarrow> SnipsAsr" where
  "arrive (StartListening ss) s = snips_onStartListening ss s"
| "arrive (AsrToggleOff uid) s = snips_onAsrToggleOff uid s"

definition nap :: "(nat \<Rightarrow> toggle list) \<Rightarrow> nat \<Rightarrow> SnipsAsr \<Rightarrow> SnipsAsr" where
  "nap sched k s = fold arrive (sched k) (s\<lparr>naps := Suc (naps s)\<rparr>)"

text \<open>
  \<^verbatim>\<open>
  def decodeStream(self, session: DialogSession):
      while self._listening:
          time.sleep(0.1)
  \<close>
  The loop may run forever: the value \<open>None\<close> of the model is a call that never returns.
  A call that returns gives Python's \<open>None\<close>, that is no \<open>ASRResult\<close>, and the state.
  \<open>k\<close> counts the sleeps of the schedule already taken.
\<close>

partial_function (option) snips_decodeStream ::
  "(nat \<Rightarrow> toggle list) \<Rightarrow> nat \<Rightarrow> SnipsAsr \<Rightarrow> (ASRResult option \<times> SnipsAsr) option" where
  "snips_decodeStream sched k s =
     (if listening s then snips_decodeStream sched (Suc k) (nap sched k s)
      else Some (None, s))"

text \<open>The state after \<open>n\<close> sleeps.\<close>

fun afterNaps :: "(nat \<Rightarrow> toggle list) \<Rightarrow> nat \<Rightarrow> nat \<Rightarrow> SnipsAsr \<Rightarrow> SnipsAsr" where
  "afterNaps sched k 0 s = s"
| "afterNaps sched k (Suc n) s = afterNaps sched (Suc k) n (nap sched k s)"

text \<open>
  \<^verbatim>\<open>
  cmd = f'snips-asr --assistant {rootDir()}/assistant --mqtt {mqttHost}:{mqttPort}'
  if mqttUser:
      cmd += f' --mqtt-username {mqttUser} --mqtt-password {mqttPassword}'
  if mqttTLSFile:
      cmd += f' --mqtt-tls-cafile {mqttTLSFile}'
  cmd += ' --model /usr/share/snips/snips-asr-model-en-500MB'
  cmd += ' --partial'
  \<close>
  where each name in braces is \<open>getAliceConfigByName\<close> of that name.
\<close>

definition snipsCmd :: "SnipsEnv \<Rightarrow> string" where
  "snipsCmd env =
     (let cfg = getAliceConfigByName env;
          cmd = ''snips-asr --assistant '' @ rootDir env @ ''/assistant --mqtt ''
                  @ str (cfg ''mqttHost'') @ '':'' @ str (cfg ''mqttPort'');
          cmd = (if truthy (cfg ''mqttUser'')
                 then cmd @ '' --mqtt-username '' @ str (cfg ''mqttUser'')
                          @ '' --mqtt-password '' @ str (cfg ''mqttPassword'')
                 else cmd);
          cmd = (if truthy (cfg ''mqttTLSFile'')
                 then cmd @ '' --mqtt-tls-cafile '' @ str (cfg ''mqttTLSFile'')
                 else cmd);
          cmd = cmd @ '' --model /usr/share/snips/snips-asr-model-en-500MB'';
          cmd = cmd @ '' --partial''
      in cmd)"

text \<open>
  \<^verbatim>\<open>
  def onStart(self):
      super().onStart()
      if self.LanguageManager.activeLanguage != 'en':
          raise Exception('Snips generic ASR only for english')
      cmd = ...
      self.SubprocessManager.runSubprocess(name='SnipsASR', cmd=cmd, autoRestart=True)
  \<close>
  The base class's \<open>onStart\<close> touches none of the fields modelled here.
\<close>

definition snips_onStart :: "SnipsEnv \<Rightarrow> SnipsAsr \<Rightarrow> (error + unit) \<times> SnipsAsr" where
  "snips_onStart env s =
     (if activeLanguage env \<noteq> ''en''
      then (Inl (Exception ''Snips generic ASR only for english''), s)
      else (Inr (), s\<lparr>subprocesses := subprocesses s @ [(''SnipsASR'', snipsCmd env, True)]\<rparr>))"

text \<open>An installation to start the engine on.\<close>

definition localBroker :: "string \<Rightarrow> pyval" where
  "localBroker name =
     (if name = ''mqttHost'' then PStr ''localhost''
      else if name = ''mqttPort'' then PInt 1883
      else if name = ''mqttUser'' then PStr ''alice''
      else if name = ''mqttPassword'' then PStr ''secret''
      else PStr [])"

definition english :: SnipsEnv where
  "english = \<lparr>activeLanguage = ''en'', rootDir = ''/home/pi/ProjectAlice'',
               getAliceConfigByName = localBroker\<rparr>"

definition idle :: SnipsAsr where
  "idle = \<lparr>listening = False, naps = 0, subprocesses = []\<rparr>"

text \<open>
  Reading a string of decimal digits back as a number, to say what \<open>str\<close> gives for
  an integer.
\<close>

definition readDecimal :: "string \<Rightarrow> nat" where
  "readDecimal ds = foldl (\<lambda>a c. 10 * a + (of_char c - 48)) 0 ds"

text \<open>
  The same installation under French, and one with no broker user and a certificate file.
\<close>

definition french :: SnipsEnv where
  "french = \<lparr>activeLanguage = ''fr'', rootDir = ''/home/pi/ProjectAlice'',
              getAliceConfigByName = localBroker\<rparr>"

definition anonymous :: SnipsEnv where
  "anonymous =
     english\<lparr>getAliceConfigByName :=
               localBroker(''mqttUser'' := PStr [], ''mqttTLSFile'' := PStr ''/etc/ca.crt'')\<rparr>"

text \<open>The installation with neither a broker user nor a certificate file.\<close>

definition unsecured :: SnipsEnv where
  "unsecured = english\<lparr>getAliceConfigByName := localBroker(''mqttUser'' := PStr [])\<rparr>"

text \<open>
  Two schedules: one where a toggle-off for the kitchen arrives during the third sleep,
  and one where nothing ever arrives.
\<close>

definition toggledInThirdSleep :: "nat \<Rightarrow> toggle list" where
  "toggledInThirdSleep k = (if k = 2 then [AsrToggleOff ''kitchen''] else [])"

definition quiet :: "nat \<Rightarrow> toggle list" where
  "quiet k = []"

section \<open>Properties of the embedded engine\<close>

subsection \<open>The decode loop\<close>

lemma log_simps [simp]:
  "trace (log e s) = trace s @ [e]"
  "model (log e s) = model s"
  "triggerFlag (log e s) = triggerFlag s"
  "recorder (log e s) = recorder s"
  "recorders (log e s) = recorders s"
  "streams (log e s) = streams s"
  by (simp_all add: log_def)

lemma deliver_frame [simp]:
  "model (deliver v s) = model s"
  "recorder (deliver v s) = recorder s"
  "recorders (deliver v s) = recorders s"
  "streams (deliver v s) = streams s"
  by (cases v; simp add: coqui_onVadUp_def coqui_onVadDown_def split: option.split)+

lemma deliver_trace:
  "\<exists>new. trace (deliver v s) = trace s @ new \<and> (\<forall>e \<in> set new. isStop e)"
  by (cases v) (auto simp: coqui_onVadUp_def coqui_onVadDown_def split: option.split)

lemma loopCalls_simps [simp]:
  "loopCalls ss sid []"
  "loopCalls ss sid (xs @ ys) = (loopCalls ss sid xs \<and> loopCalls ss sid ys)"
  "loopCalls ss sid (e # ys) = (loopCall ss sid e \<and> loopCalls ss sid ys)"
  by (auto simp: loopCalls_def)

lemma loopCall_simps [simp]:
  "loopCall ss sid (FeedAudioContent i w) = (i = sid)"
  "loopCall ss sid (IntermediateDecode i t) = (i = sid)"
  "loopCall ss sid (PartialTextCaptured ss' t l sec) = (ss' = ss \<and> l = 1 \<and> sec = 0)"
  "loopCall ss sid (StopRecording r)"
  "\<not> loopCall ss sid (AddRecorder uid r)"
  "\<not> loopCall ss sid (CreateStream i)"
  "\<not> loopCall ss sid (FinishStream i t)"
  "\<not> loopCall ss sid End"
  by (simp_all add: loopCall_def)

lemma isStop_loopCall: "isStop e \<Longrightarrow> loopCall ss sid e"
  by (simp add: loopCall_def)

lemma isDecodeEvent_simps [simp]:
  "isDecodeEvent (FeedAudioContent i w)"
  "isDecodeEvent (IntermediateDecode i t)"
  "isDecodeEvent (PartialTextCaptured ss t l sec)"
  "\<not> isDecodeEvent (AddRecorder uid r)"
  "\<not> isDecodeEvent (CreateStream i)"
  "\<not> isDecodeEvent (FinishStream i t)"
  "\<not> isDecodeEvent End"
  "\<not> isDecodeEvent (StopRecording r)"
  by (simp_all add: isDecodeEvent_def)

lemma stops_filter [simp]:
  "\<forall>e \<in> set new. isStop e \<Longrightarrow> filter isDecodeEvent new = []"
  "\<forall>e \<in> set new. isStop e \<Longrightarrow> filter isPartial new = []"
  "\<forall>e \<in> set new. isStop e \<Longrightarrow> filter isFeed new = []"
  "\<forall>e \<in> set new. isStop e \<Longrightarrow> loopCalls ss sid new"
  by (auto simp: isDecodeEvent_def loopCalls_def isStop_loopCall filter_empty_conv effect.disc_eq_case split: effect.splits)

lemma decodeLoop_frame:
  "decodeLoop m ss sid its ctx r s = (out, s') \<Longrightarrow>
     model s' = model s \<and> recorder s' = recorder s \<and> recorders s' = recorders s \<and> streams s' = streams s"
proof (induction m ss sid its ctx r s rule: decodeLoop.induct)
  case (1 m ss sid ctx result s)
  then show ?case by simp
next
  case (2 m ss sid v its ctx result s)
  then show ?case by simp
next
  case (3 m ss sid chunk its ctx result s)
  then show ?case
    by (auto split: if_splits sum.splits prod.splits simp: Let_def)
qed

lemma decodeLoop_trace:
  "decodeLoop m ss sid its ctx r s = (out, s') \<Longrightarrow>
     \<exists>new. trace s' = trace s @ new \<and> loopCalls ss sid new \<and>
       tripled ss sid (filter isDecodeEvent new) \<and>
       (\<forall>ctx' r'. out = Inr (ctx', r') \<longrightarrow>
          length (filter isPartial new) = length (pulled its) \<and>
          map (\<lambda>e. Inr (samplesOf e)) (filter isFeed new) = map frombuffer (pulled its) \<and>
          r' = (if partialTexts new = [] then r else PStr (last (partialTexts new))))"
proof (induction m ss sid its ctx r s rule: decodeLoop.induct)
  case (1 m ss sid ctx result s)
  then show ?case by (auto simp: partialTexts_def)
next
  case (2 m ss sid v its ctx result s)
  from 2 obtain new where new: "trace s' = trace (deliver v s) @ new" "loopCalls ss sid new"
       "tripled ss sid (filter isDecodeEvent new)"
       "\<forall>ctx' r'. out = Inr (ctx', r') \<longrightarrow>
          length (filter isPartial new) = length (pulled its) \<and>
          map (\<lambda>e. Inr (samplesOf e)) (filter isFeed new) = map frombuffer (pulled its) \<and>
          r' = (if partialTexts new = [] then result else PStr (last (partialTexts new)))"
    by auto
  obtain st where st: "trace (deliver v s) = trace s @ st" "\<forall>e \<in> set st. isStop e"
    using deliver_trace by blast
  show ?case
    apply (rule exI [of _ "st @ new"])
    using new st by (auto simp: partialTexts_def)
next
  case (3 m ss sid chunk its ctx result s)
  show ?case
  proof (cases "chunk = []")
    case True
    with 3 show ?thesis by (auto simp: partialTexts_def)
  next
    case False
    note ne = this
    show ?thesis
    proof (cases "frombuffer chunk")
      case (Inl e)
      with 3 ne show ?thesis by auto
    next
      case (Inr samples)
      obtain t ctx2 where dec: "intermediateDecode m (feedAudioContent m samples ctx) = (t, ctx2)"
        by (cases "intermediateDecode m (feedAudioContent m samples ctx)")
      let ?s3 = "log (PartialTextCaptured ss t 1 0) (log (IntermediateDecode sid t) (log (FeedAudioContent sid samples) s))"
      have run: "decodeLoop m ss sid its ctx2 (PStr t) ?s3 = (out, s')"
        using 3(2) ne Inr dec by (simp add: Let_def)
      from 3(1) [OF ne Inr refl refl dec [symmetric] refl refl refl run]
      obtain new where new: "trace s' = trace ?s3 @ new" "loopCalls ss sid new"
       "tripled ss sid (filter isDecodeEvent new)"
       "\<forall>ctx' r'. out = Inr (ctx', r') \<longrightarrow>
          length (filter isPartial new) = length (pulled its) \<and>
          map (\<lambda>e. Inr (samplesOf e)) (filter isFeed new) = map frombuffer (pulled its) \<and>
          r' = (if partialTexts new = [] then PStr t else PStr (last (partialTexts new)))"
        by auto
      show ?thesis
        apply (rule exI [of _ "[FeedAudioContent sid samples, IntermediateDecode sid t, PartialTextCaptured ss t 1 0] @ new"])
        using new ne Inr by (auto simp: partialTexts_def)
    qed
  qed
qed



lemma loopCalls_not_finish:
  "loopCalls ss sid new \<Longrightarrow> e \<in> set new \<Longrightarrow> \<not> isFinish e \<and> \<not> isCreateStream e"
  by (cases e) (auto simp: loopCalls_def)

lemma loopCalls_filter [simp]:
  "loopCalls ss sid new \<Longrightarrow> filter isFinish new = []"
  "loopCalls ss sid new \<Longrightarrow> filter isCreateStream new = []"
  using loopCalls_not_finish [of ss sid new] by (simp_all add: filter_empty_conv)


lemma loopCalls_partial:
  "loopCalls ss sid new \<Longrightarrow> e \<in> set new \<Longrightarrow> isPartial e \<Longrightarrow>
     sessionOf e = ss \<and> likelihoodOf e = 1 \<and> secondsOf e = 0"
  by (cases e) (auto simp: loopCalls_def)

lemma loopCalls_finishCount [simp]:
  "loopCalls ss sid new \<Longrightarrow> finishCount i new = 0"
  using loopCalls_not_finish [of ss sid new] by (simp add: finishCount_def filter_empty_conv)



lemma coqui_decodeStream_normal:
  assumes "coqui_decodeStream ss elapsed its s = (Inr res, s')"
  shows "\<exists>m new ctx r. model s = Some m \<and>
    trace s' = trace s @ AddRecorder (deviceUid ss) (recorders s) # CreateStream (streams s) # new
                 @ [FinishStream (streams s) (finishStream m ctx), End] \<and>
    loopCalls ss (streams s) new \<and> tripled ss (streams s) (filter isDecodeEvent new) \<and>
    length (filter isPartial new) = length (pulled its) \<and>
    map (\<lambda>e. Inr (samplesOf e)) (filter isFeed new) = map frombuffer (pulled its) \<and>
    r = (if partialTexts new = [] then PNone else PStr (last (partialTexts new))) \<and>
    res = (if truthy r then Some \<lparr>resultText = finishStream m ctx, session = ss, likelihood = 1,
                                   processingTime = elapsed\<rparr> else None) \<and>
    \<not> triggerFlag s' \<and> streams s' = Suc (streams s) \<and> recorder s' = Some (recorders s)"
proof -
  from assms obtain m where m: "model s = Some m"
    by (cases "model s") (auto simp: coqui_decodeStream_def Let_def)
  let ?s3 = "log (CreateStream (streams s))
       ((log (AddRecorder (deviceUid ss) (recorders s)) (s\<lparr>recorders := Suc (recorders s)\<rparr>))
          \<lparr>recorder := Some (recorders s), streams := Suc (streams s)\<rparr>)"
  obtain out s4 where loop: "decodeLoop m ss (streams s) its (createStream m) PNone ?s3 = (out, s4)"
    by (cases "decodeLoop m ss (streams s) its (createStream m) PNone ?s3")
  from assms m loop obtain ctx r where out: "out = Inr (ctx, r)"
    by (cases out) (auto simp: coqui_decodeStream_def Let_def)
  from assms m loop out have
    res: "res = (if truthy r then Some \<lparr>resultText = finishStream m ctx, session = ss, likelihood = 1,
                                   processingTime = elapsed\<rparr> else None)"
    and s': "s' = log End ((log (FinishStream (streams s) (finishStream m ctx)) s4)\<lparr>triggerFlag := False\<rparr>)"
    by (auto simp: coqui_decodeStream_def Let_def)
  from decodeLoop_trace [OF loop] out obtain new where new:
    "trace s4 = trace ?s3 @ new" "loopCalls ss (streams s) new"
    "tripled ss (streams s) (filter isDecodeEvent new)"
    "length (filter isPartial new) = length (pulled its)"
    "map (\<lambda>e. Inr (samplesOf e)) (filter isFeed new) = map frombuffer (pulled its)"
    "r = (if partialTexts new = [] then PNone else PStr (last (partialTexts new)))"
    by auto
  have fr: "streams s4 = Suc (streams s)" "recorder s4 = Some (recorders s)"
    using decodeLoop_frame [OF loop] by simp_all
  show ?thesis
    apply (rule exI [of _ m], rule exI [of _ new], rule exI [of _ ctx], rule exI [of _ r])
    using m new res fr by (simp add: s')
qed

subsection \<open>A whole session\<close>

lemma sessionTrace_append [simp]: "trace s' = trace s @ new \<Longrightarrow> sessionTrace s s' = new"
  by (simp add: sessionTrace_def)

lemma partialTexts_simps [simp]:
  "partialTexts [] = []"
  "partialTexts (xs @ ys) = partialTexts xs @ partialTexts ys"
  "partialTexts (AddRecorder uid r # xs) = partialTexts xs"
  "partialTexts (CreateStream i # xs) = partialTexts xs"
  "partialTexts (FinishStream i t # xs) = partialTexts xs"
  "partialTexts (End # xs) = partialTexts xs"
  by (simp_all add: partialTexts_def)



lemma finishCount_simps [simp]:
  "finishCount i [] = 0"
  "finishCount i (xs @ ys) = finishCount i xs + finishCount i ys"
  "finishCount i (AddRecorder uid r # xs) = finishCount i xs"
  "finishCount i (CreateStream j # xs) = finishCount i xs"
  "finishCount i (End # xs) = finishCount i xs"
  "finishCount i (FinishStream j t # xs) = (if j = i then Suc (finishCount i xs) else finishCount i xs)"
  by (simp_all add: finishCount_def)






lemma onStream_simps [simp]:
  "onStream (CreateStream i)"
  "onStream (FeedAudioContent i w)"
  "onStream (IntermediateDecode i t)"
  "onStream (FinishStream i t)"
  "\<not> onStream (AddRecorder uid r)"
  "\<not> onStream (PartialTextCaptured ss t l sec)"
  "\<not> onStream End"
  "\<not> onStream (StopRecording r)"
  by (simp_all add: onStream_def)


lemma decodeLoop_context:
  "decodeLoop m ss sid its ctx r s = (Inr (ctx', r'), s') \<Longrightarrow>
     ctx' = fedThrough m (pulled its) ctx"
proof (induction m ss sid its ctx r s rule: decodeLoop.induct)
  case (1 m ss sid ctx result s)
  then show ?case by simp
next
  case (2 m ss sid v its ctx result s)
  then show ?case by simp
next
  case (3 m ss sid chunk its ctx result s)
  show ?case
  proof (cases "chunk = []")
    case True
    with 3(2) show ?thesis by simp
  next
    case False
    show ?thesis
    proof (cases "frombuffer chunk")
      case (Inl e)
      with 3(2) False show ?thesis by simp
    next
      case (Inr samples)
      obtain t ctx2 where dec: "intermediateDecode m (feedAudioContent m samples ctx) = (t, ctx2)"
        by (cases "intermediateDecode m (feedAudioContent m samples ctx)")
      let ?s3 = "log (PartialTextCaptured ss t 1 0)
                   (log (IntermediateDecode sid t) (log (FeedAudioContent sid samples) s))"
      have run: "decodeLoop m ss sid its ctx2 (PStr t) ?s3 = (Inr (ctx', r'), s')"
        using 3(2) False Inr dec by (simp add: Let_def)
      from 3(1) [OF False Inr refl refl dec [symmetric] refl refl refl run]
      show ?thesis using False Inr dec by simp
    qed
  qed
qed

lemma coqui_decodeStream_text:
  fixes s :: "'c CoquiAsr"
  assumes m: "model s = Some m" and run: "coqui_decodeStream ss elapsed its s = (Inr res, s')"
  shows "\<exists>new r. trace s' = trace s @ AddRecorder (deviceUid ss) (recorders s) # CreateStream (streams s) # new
                 @ [FinishStream (streams s) (finishStream m (fedThrough m (pulled its) (createStream m))), End] \<and>
    loopCalls ss (streams s) new \<and>
    res = (if truthy r
           then Some \<lparr>resultText = finishStream m (fedThrough m (pulled its) (createStream m)),
                      session = ss, likelihood = 1, processingTime = elapsed\<rparr>
           else None)"
proof -
  let ?s3 = "log (CreateStream (streams s))
       ((log (AddRecorder (deviceUid ss) (recorders s)) (s\<lparr>recorders := Suc (recorders s)\<rparr>))
          \<lparr>recorder := Some (recorders s), streams := Suc (streams s)\<rparr>)"
  obtain out s4 where loop: "decodeLoop m ss (streams s) its (createStream m) PNone ?s3 = (out, s4)"
    by (cases "decodeLoop m ss (streams s) its (createStream m) PNone ?s3")
  from run m loop obtain ctx r where out: "out = Inr (ctx, r)"
    by (cases out) (auto simp: coqui_decodeStream_def Let_def)
  have ctx: "ctx = fedThrough m (pulled its) (createStream m)"
    using decodeLoop_context [of m ss "streams s" its "createStream m" PNone ?s3 ctx r s4] loop out
    by simp
  from run m loop out have
    res: "res = (if truthy r then Some \<lparr>resultText = finishStream m ctx, session = ss, likelihood = 1,
                                   processingTime = elapsed\<rparr> else None)"
    and s': "s' = log End ((log (FinishStream (streams s) (finishStream m ctx)) s4)\<lparr>triggerFlag := False\<rparr>)"
    by (auto simp: coqui_decodeStream_def Let_def)
  from decodeLoop_trace [OF loop] obtain new where new:
    "trace s4 = trace ?s3 @ new" "loopCalls ss (streams s) new"
    by blast
  show ?thesis
    apply (rule exI [of _ new], rule exI [of _ r])
    using new res ctx by (simp add: s')
qed

subsection \<open>The sessions, evaluated\<close>

lemma run_hello: "coqui_decodeStream kitchen 2 voiced started = (Inr (Some hello), afterHello)"
  by (simp add: coqui_decodeStream_def started_def countingStt_def kitchen_def hello_def log_def
        coqui_onVadUp_def coqui_onVadDown_def voiced_def afterHello_def Let_def)

lemma run_withdrawn: "coqui_decodeStream kitchen 2 withdrawn started = (Inr None, afterWithdrawn)"
  by (simp add: coqui_decodeStream_def started_def countingStt_def kitchen_def log_def
        withdrawn_def afterWithdrawn_def Let_def)


lemma run_final: "coqui_decodeStream kitchen 2 withdrawn drafting = (Inr (Some final), afterFinal)"
  by (simp add: coqui_decodeStream_def drafting_def draftingStt_def kitchen_def final_def log_def
        withdrawn_def afterFinal_def Let_def)

subsection \<open>When a session gives a result\<close>




subsection \<open>The voice activity gate\<close>

text \<open>
  Claim C2, as the code has it. \<open>onVadUp\<close> sets the flag whatever it was and calls
  nothing. \<open>onVadDown\<close> with the flag set asks the bound recorder to stop and leaves the
  flag set (only \<open>decodeStream\<close> clears it); with the flag clear it does nothing: no
  stop request, the state unchanged.
\<close>

theorem coqui_vad_gate:
  "triggerFlag (coqui_onVadUp s) \<and> trace (coqui_onVadUp s) = trace s \<and>
   (triggerFlag s \<longrightarrow> recorder s = Some r \<longrightarrow>
      fst (coqui_onVadDown s) = Inr () \<and>
      trace (snd (coqui_onVadDown s)) = trace s @ [StopRecording r] \<and>
      triggerFlag (snd (coqui_onVadDown s))) \<and>
   (\<not> triggerFlag s \<longrightarrow> coqui_onVadDown s = (Inr (), s))"
  by (simp add: coqui_onVadUp_def coqui_onVadDown_def)

theorem coqui_vad_gate_witness:
  "triggerFlag (coqui_onVadUp afterHello) \<and> recorder (coqui_onVadUp afterHello) = Some 0 \<and>
   trace (snd (coqui_onVadDown (coqui_onVadUp afterHello))) =
     trace (coqui_onVadUp afterHello) @ [StopRecording 0] \<and>
   \<not> triggerFlag afterHello \<and> coqui_onVadDown afterHello = (Inr (), afterHello)"
  using coqui_vad_gate [of "coqui_onVadUp afterHello" 0] coqui_vad_gate [of afterHello 0]
  by (simp add: coqui_onVadUp_def afterHello_def)

text \<open>
  Claim C2 as stated fails: after voice up, voice down requests the stop but the flag is
  still set.
\<close>

theorem coqui_onVadDown_keeps_flag_counterexample:
  "triggerFlag (snd (coqui_onVadDown (coqui_onVadUp afterHello)))"
  by (simp add: coqui_onVadUp_def coqui_onVadDown_def afterHello_def)

subsection \<open>The result\<close>

text \<open>
  Claim C3. When \<open>decodeStream\<close> returns an \<open>ASRResult\<close>, its text is what the
  engine's \<open>finishStream\<close> returns on the session's stream context, that is the context
  created for the session after all its chunks were fed and decoded. The session called
  \<open>finishStream\<close> once, on that context, and the call returned this text. The
  likelihood is 1, and the result carries the session and the stopwatch reading.
\<close>

theorem coqui_result_text_is_final_transcript:
  fixes s :: "'c CoquiAsr"
  assumes "model s = Some m"
    and "coqui_decodeStream ss elapsed its s = (Inr (Some r), s')"
  shows "resultText r = finishStream m (fedThrough m (pulled its) (createStream m)) \<and>
         filter isFinish (sessionTrace s s') = [FinishStream (streams s) (resultText r)] \<and>
         likelihood r = 1 \<and> session r = ss \<and> processingTime r = elapsed"
proof -
  from coqui_decodeStream_text [OF assms] obtain new rv where
    tr: "trace s' = trace s @ AddRecorder (deviceUid ss) (recorders s) # CreateStream (streams s) # new
                 @ [FinishStream (streams s) (finishStream m (fedThrough m (pulled its) (createStream m))), End]"
    and lc: "loopCalls ss (streams s) new"
    and res: "Some r = (if truthy rv
           then Some \<lparr>resultText = finishStream m (fedThrough m (pulled its) (createStream m)),
                      session = ss, likelihood = 1, processingTime = elapsed\<rparr>
           else None)"
    by blast
  from res have r: "r = \<lparr>resultText = finishStream m (fedThrough m (pulled its) (createStream m)),
                      session = ss, likelihood = 1, processingTime = elapsed\<rparr>"
    by (simp split: if_splits)
  have "sessionTrace s s' = AddRecorder (deviceUid ss) (recorders s) # CreateStream (streams s) # new
                 @ [FinishStream (streams s) (finishStream m (fedThrough m (pulled its) (createStream m))), End]"
    using tr by simp
  then show ?thesis using lc r by simp
qed

theorem coqui_result_text_is_final_transcript_witness:
  "model drafting = Some draftingStt \<and>
   coqui_decodeStream kitchen 2 withdrawn drafting = (Inr (Some final), afterFinal) \<and>
   finishStream draftingStt (fedThrough draftingStt (pulled withdrawn) (createStream draftingStt)) = ''final'' \<and>
   resultText final = ''final'' \<and>
   partialTexts (sessionTrace drafting afterFinal) = [''hi'', ''hi''] \<and>
   filter isFinish (sessionTrace drafting afterFinal) = [FinishStream 0 ''final''] \<and>
   likelihood final = 1"
proof -
  have m: "model drafting = Some draftingStt"
    by (simp add: drafting_def)
  have f: "finishStream draftingStt (fedThrough draftingStt (pulled withdrawn) (createStream draftingStt)) = ''final''"
    by (simp add: draftingStt_def withdrawn_def)
  have p: "partialTexts (sessionTrace drafting afterFinal) = [''hi'', ''hi'']"
    by (simp add: sessionTrace_def drafting_def afterFinal_def partialTexts_def)
  have s0: "streams drafting = 0"
    by (simp add: drafting_def)
  from coqui_result_text_is_final_transcript [OF m run_final] m run_final f p s0
  show ?thesis by simp
qed

subsection \<open>Partial events\<close>

text \<open>
  Claim C4. In a session that completes, the calls of the loop body come in threes: the
  feed of a chunk's samples, the intermediate decode on the same stream context, and one
  partial event with the decoded text, likelihood 1 and 0 seconds. There is one partial
  event for each chunk pulled before the sequence ended, the chunks are fed in order,
  and a session that pulls no chunk emits no partial event and gives no result.
\<close>

theorem coqui_one_partial_per_chunk:
  fixes s :: "'c CoquiAsr"
  assumes "coqui_decodeStream ss elapsed its s = (Inr res, s')"
  shows "tripled ss (streams s) (filter isDecodeEvent (sessionTrace s s')) \<and>
         length (filter isPartial (sessionTrace s s')) = length (pulled its) \<and>
         (\<forall>e \<in> set (filter isPartial (sessionTrace s s')).
             sessionOf e = ss \<and> likelihoodOf e = 1 \<and> secondsOf e = 0) \<and>
         map (\<lambda>e. Inr (samplesOf e)) (filter isFeed (sessionTrace s s')) = map frombuffer (pulled its) \<and>
         (pulled its = [] \<longrightarrow> filter isPartial (sessionTrace s s') = [] \<and> res = None)"
proof -
  from coqui_decodeStream_normal [OF assms] obtain m :: "'c stt" and new and ctx :: 'c and r where
    tr: "trace s' = trace s @ AddRecorder (deviceUid ss) (recorders s) # CreateStream (streams s) # new
                 @ [FinishStream (streams s) (finishStream m ctx), End]"
    and lc: "loopCalls ss (streams s) new"
    and tri: "tripled ss (streams s) (filter isDecodeEvent new)"
    and len: "length (filter isPartial new) = length (pulled its)"
    and fed: "map (\<lambda>e. Inr (samplesOf e)) (filter isFeed new) = map frombuffer (pulled its)"
    and r: "r = (if partialTexts new = [] then PNone else PStr (last (partialTexts new)))"
    and res: "res = (if truthy r then Some \<lparr>resultText = finishStream m ctx, session = ss, likelihood = 1,
                                   processingTime = elapsed\<rparr> else None)"
    by blast
  have st: "sessionTrace s s' = AddRecorder (deviceUid ss) (recorders s) # CreateStream (streams s) # new
                 @ [FinishStream (streams s) (finishStream m ctx), End]"
    using tr by simp
  have f1: "filter isDecodeEvent (sessionTrace s s') = filter isDecodeEvent new"
    and f2: "filter isPartial (sessionTrace s s') = filter isPartial new"
    and f3: "filter isFeed (sessionTrace s s') = filter isFeed new"
    by (simp_all add: st)
  have each: "sessionOf e = ss \<and> likelihoodOf e = 1 \<and> secondsOf e = 0"
    if "e \<in> set (filter isPartial new)" for e
    using that loopCalls_partial [OF lc, of e] by simp
  have none: "pulled its = [] \<longrightarrow> filter isPartial new = [] \<and> res = None"
    using len r res by (auto simp: partialTexts_def)
  show ?thesis
    using tri len fed none each by (simp add: f1 f2 f3)
qed

theorem coqui_one_partial_per_chunk_witness:
  "coqui_decodeStream kitchen 2 withdrawn started = (Inr None, afterWithdrawn) \<and>
   tripled kitchen 0 (filter isDecodeEvent (sessionTrace started afterWithdrawn)) \<and>
   length (filter isPartial (sessionTrace started afterWithdrawn)) = 2 \<and>
   length (pulled withdrawn) = 2 \<and>
   map (\<lambda>e. Inr (samplesOf e)) (filter isFeed (sessionTrace started afterWithdrawn)) =
     map frombuffer (pulled withdrawn)"
  using coqui_one_partial_per_chunk [OF run_withdrawn] run_withdrawn
  by (simp add: started_def withdrawn_def)

subsection \<open>Stream contexts\<close>



subsection \<open>The flag after a session\<close>

text \<open>
  Claim C10. After a session that completes the trigger flag is clear, whatever signals
  arrived during it, and an \<open>onVadDown\<close> then does nothing: it requests no stop.
\<close>

theorem coqui_flag_clear_after_session:
  fixes s :: "'c CoquiAsr"
  assumes "coqui_decodeStream ss elapsed its s = (Inr res, s')"
  shows "\<not> triggerFlag s' \<and> coqui_onVadDown s' = (Inr (), s')"
  using coqui_decodeStream_normal [OF assms] by (auto simp: coqui_onVadDown_def)

theorem coqui_flag_clear_after_session_witness:
  "coqui_decodeStream kitchen 2 voiced started = (Inr (Some hello), afterHello) \<and>
   \<not> triggerFlag afterHello \<and> coqui_onVadDown afterHello = (Inr (), afterHello)"
  using coqui_flag_clear_after_session [OF run_hello] run_hello by simp

section \<open>Properties of the delegated engine\<close>

subsection \<open>The polling loop\<close>

lemma afterNaps_add: "afterNaps sched k (Suc n) s = nap sched (k + n) (afterNaps sched k n s)"
  by (induction n arbitrary: k s) simp_all

lemma snips_decodeStream_returns:
  "\<not> listening (afterNaps sched k n s) \<Longrightarrow> \<forall>i < n. listening (afterNaps sched k i s) \<Longrightarrow>
     snips_decodeStream sched k s = Some (None, afterNaps sched k n s)"
proof (induction n arbitrary: k s)
  case 0
  then show ?case by (simp add: snips_decodeStream.simps)
next
  case (Suc n)
  from Suc.prems(2) have l: "listening s" by force
  have "\<forall>i < n. listening (afterNaps sched (Suc k) i (nap sched k s))"
    using Suc.prems(2) by force
  with Suc.IH [of "Suc k" "nap sched k s"] Suc.prems(1)
  have "snips_decodeStream sched (Suc k) (nap sched k s) = Some (None, afterNaps sched (Suc k) n (nap sched k s))"
    by simp
  with l show ?case by (subst snips_decodeStream.simps) simp
qed

lemma snips_decodeStream_Some:
  assumes "snips_decodeStream sched k s = Some y"
  shows "fst y = None \<and>
     (\<exists>n. snd y = afterNaps sched k n s \<and> \<not> listening (snd y) \<and>
          (\<forall>i < n. listening (afterNaps sched k i s)))"
proof (rule snips_decodeStream.raw_induct [OF _ assms], goal_cases)
  case (1 f sched k s y)
  show ?case
  proof (cases "listening s")
    case False
    with 1(2) have "y = (None, s)" by simp
    with False show ?thesis by (auto intro: exI [of _ 0])
  next
    case True
    with 1(2) have "f sched (Suc k) (nap sched k s) = Some y" by simp
    from 1(1) [OF this] obtain n where r: "fst y = None"
      and n: "snd y = afterNaps sched (Suc k) n (nap sched k s)" "\<not> listening (snd y)"
      "\<forall>i < n. listening (afterNaps sched (Suc k) i (nap sched k s))" by blast
    have "\<forall>i < Suc n. listening (afterNaps sched k i s)"
    proof (intro allI impI)
      fix i assume "i < Suc n"
      then show "listening (afterNaps sched k i s)"
        using True n(3) by (cases i) auto
    qed
    with n r show ?thesis by (auto intro!: exI [of _ "Suc n"])
  qed
qed

lemma snips_decodeStream_blocks:
  "\<forall>n. listening (afterNaps sched k n s) \<Longrightarrow> snips_decodeStream sched k s = None"
proof (rule ccontr)
  assume a: "\<forall>n. listening (afterNaps sched k n s)" and "snips_decodeStream sched k s \<noteq> None"
  then obtain y where "snips_decodeStream sched k s = Some y" by auto
  from snips_decodeStream_Some [OF this] a show False by auto
qed

lemma arrive_naps [simp]: "naps (arrive t s) = naps s"
  by (cases t) (simp_all add: snips_onStartListening_def snips_onAsrToggleOff_def)

lemma fold_arrive_naps [simp]: "naps (fold arrive ts s) = naps s"
  by (induction ts arbitrary: s) simp_all

lemma nap_naps [simp]: "naps (nap sched k s) = Suc (naps s)"
  by (simp add: nap_def)

lemma afterNaps_naps: "naps (afterNaps sched k n s) = naps s + n"
  by (induction n arbitrary: k s) simp_all

lemma nap_toggled_off:
  "sched k = pre @ [AsrToggleOff uid] \<Longrightarrow> \<not> listening (nap sched k s)"
  by (simp add: nap_def snips_onAsrToggleOff_def)

lemma first_not_listening:
  assumes "\<not> listening (afterNaps sched k m s)"
  shows "\<exists>j \<le> m. \<not> listening (afterNaps sched k j s) \<and> (\<forall>i < j. listening (afterNaps sched k i s))"
proof -
  define j where "j = (LEAST j. \<not> listening (afterNaps sched k j s))"
  have "\<not> listening (afterNaps sched k j s)"
    unfolding j_def using assms by (rule LeastI)
  moreover have "j \<le> m"
    unfolding j_def using assms by (rule Least_le)
  moreover have "\<forall>i < j. listening (afterNaps sched k i s)"
    unfolding j_def using not_less_Least by blast
  ultimately show ?thesis by blast
qed

lemma quiet_listening: "listening s \<Longrightarrow> listening (afterNaps quiet k n s)"
  by (induction n arbitrary: k s) (simp_all add: nap_def quiet_def)

text \<open>
  Claim C7. While \<open>listening\<close> stays true the call does not return; when it is
  false after \<open>n\<close> sleeps (and not before) the call returns after exactly \<open>n\<close> sleeps;
  a toggle-off that arrives last during some sleep makes it return by the end of that
  sleep; with \<open>listening\<close> false at the start it returns at once; and whenever it
  returns it gives no \<open>ASRResult\<close> and leaves \<open>listening\<close> false.
\<close>

theorem snips_decodeStream_blocks_while_listening:
  "((\<forall>n. listening (afterNaps sched k n s)) \<longrightarrow> snips_decodeStream sched k s = None) \<and>
   (\<not> listening (afterNaps sched k n s) \<and> (\<forall>i < n. listening (afterNaps sched k i s)) \<longrightarrow>
      snips_decodeStream sched k s = Some (None, afterNaps sched k n s) \<and>
      naps (afterNaps sched k n s) = naps s + n) \<and>
   (sched (k + n) = pre @ [AsrToggleOff uid] \<longrightarrow>
      (\<exists>j \<le> Suc n. snips_decodeStream sched k s = Some (None, afterNaps sched k j s))) \<and>
   (\<not> listening s \<longrightarrow> snips_decodeStream sched k s = Some (None, s)) \<and>
   (\<forall>y. snips_decodeStream sched k s = Some y \<longrightarrow> fst y = None \<and> \<not> listening (snd y))"
proof (intro conjI impI allI)
  assume "\<forall>n. listening (afterNaps sched k n s)"
  then show "snips_decodeStream sched k s = None"
    by (rule snips_decodeStream_blocks)
next
  assume a: "\<not> listening (afterNaps sched k n s) \<and> (\<forall>i < n. listening (afterNaps sched k i s))"
  then show "snips_decodeStream sched k s = Some (None, afterNaps sched k n s)"
    using snips_decodeStream_returns [of sched k n s] by blast
  show "naps (afterNaps sched k n s) = naps s + n"
    by (rule afterNaps_naps)
next
  assume "sched (k + n) = pre @ [AsrToggleOff uid]"
  then have "\<not> listening (afterNaps sched k (Suc n) s)"
    by (simp only: afterNaps_add nap_toggled_off not_False_eq_True)
  from first_not_listening [OF this] obtain j where "j \<le> Suc n"
    "\<not> listening (afterNaps sched k j s)" "\<forall>i < j. listening (afterNaps sched k i s)"
    by blast
  then show "\<exists>j \<le> Suc n. snips_decodeStream sched k s = Some (None, afterNaps sched k j s)"
    using snips_decodeStream_returns [of sched k j s] by blast
next
  assume "\<not> listening s"
  then show "snips_decodeStream sched k s = Some (None, s)"
    by (subst snips_decodeStream.simps) simp
next
  fix y assume "snips_decodeStream sched k s = Some y"
  from snips_decodeStream_Some [OF this]
  show "fst y = None" and "\<not> listening (snd y)" by auto
qed

theorem snips_decodeStream_blocks_while_listening_witness:
  "listening (snips_onStartListening kitchen idle) \<and>
   snips_decodeStream quiet 0 (snips_onStartListening kitchen idle) = None \<and>
   snips_decodeStream toggledInThirdSleep 0 (snips_onStartListening kitchen idle) =
     Some (None, \<lparr>listening = False, naps = 3, subprocesses = []\<rparr>) \<and>
   snips_decodeStream toggledInThirdSleep 0 idle = Some (None, idle)"
proof -
  let ?s = "snips_onStartListening kitchen idle"
  have l: "listening ?s"
    by (simp add: snips_onStartListening_def)
  have q: "\<forall>n. listening (afterNaps quiet 0 n ?s)"
    using quiet_listening [OF l] by blast
  have three: "afterNaps toggledInThirdSleep 0 (Suc (Suc (Suc 0))) ?s =
                 \<lparr>listening = False, naps = 3, subprocesses = []\<rparr>"
    by (simp add: toggledInThirdSleep_def nap_def snips_onStartListening_def
          snips_onAsrToggleOff_def idle_def)
  have a0: "listening (afterNaps toggledInThirdSleep 0 0 ?s)"
    by (simp add: snips_onStartListening_def)
  have a1: "listening (afterNaps toggledInThirdSleep 0 (Suc 0) ?s)"
    by (simp add: toggledInThirdSleep_def nap_def snips_onStartListening_def)
  have a2: "listening (afterNaps toggledInThirdSleep 0 (Suc (Suc 0)) ?s)"
    by (simp add: toggledInThirdSleep_def nap_def snips_onStartListening_def)
  have before: "\<forall>i < Suc (Suc (Suc 0)). listening (afterNaps toggledInThirdSleep 0 i ?s)"
    using a0 a1 a2 by (auto simp only: less_Suc_eq not_less_zero)
  have off: "\<not> listening (afterNaps toggledInThirdSleep 0 (Suc (Suc (Suc 0))) ?s)"
    by (simp only: three) simp
  have i: "\<not> listening idle"
    by (simp add: idle_def)
  have A: "snips_decodeStream quiet 0 ?s = None"
    using snips_decodeStream_blocks_while_listening [of quiet 0 ?s 0 "[]" "''kitchen''"] q
    by blast
  have B: "snips_decodeStream toggledInThirdSleep 0 ?s =
             Some (None, afterNaps toggledInThirdSleep 0 (Suc (Suc (Suc 0))) ?s)"
    using snips_decodeStream_blocks_while_listening
        [of toggledInThirdSleep 0 ?s "Suc (Suc (Suc 0))" "[]" "''kitchen''"] off before
    by blast
  have C: "snips_decodeStream toggledInThirdSleep 0 idle = Some (None, idle)"
    using snips_decodeStream_blocks_while_listening [of toggledInThirdSleep 0 idle 0 "[]" "''kitchen''"] i
    by blast
  show ?thesis
    using l A B C by (simp only: three simp_thms)
qed

subsection \<open>Toggle-off\<close>

text \<open>
  Claim C9. \<open>onAsrToggleOff\<close> gives the same state for any two device identifiers,
  \<open>listening\<close> is false in it, and \<open>decodeStream\<close> on it returns at once.
\<close>

theorem snips_onAsrToggleOff_ignores_device:
  "snips_onAsrToggleOff uid1 s = snips_onAsrToggleOff uid2 s \<and>
   \<not> listening (snips_onAsrToggleOff uid1 s) \<and>
   snips_decodeStream sched k (snips_onAsrToggleOff uid1 s) =
     Some (None, snips_onAsrToggleOff uid2 s)"
  by (subst snips_decodeStream.simps) (simp add: snips_onAsrToggleOff_def)

theorem snips_onAsrToggleOff_ignores_device_witness:
  "snips_onAsrToggleOff ''kitchen'' (snips_onStartListening kitchen idle) = idle \<and>
   snips_onAsrToggleOff ''bedroom'' (snips_onStartListening kitchen idle) = idle \<and>
   snips_decodeStream quiet 0 (snips_onAsrToggleOff ''bedroom'' (snips_onStartListening kitchen idle)) =
     Some (None, idle)"
  using snips_onAsrToggleOff_ignores_device
          [of "''bedroom''" "snips_onStartListening kitchen idle" "''kitchen''" quiet 0]
  by (simp add: snips_onAsrToggleOff_def snips_onStartListening_def idle_def)

subsection \<open>Starting the engine\<close>

text \<open>
  Claim C6. \<open>onStart\<close> raises exactly when the active language is not \<open>en\<close>; then
  the state is unchanged, so no subprocess has been started. Under \<open>en\<close> it returns
  and has started one subprocess.
\<close>

theorem snips_onStart_language_gate:
  "isl (fst (snips_onStart env s)) = (activeLanguage env \<noteq> ''en'') \<and>
   (activeLanguage env \<noteq> ''en'' \<longrightarrow>
      snips_onStart env s = (Inl (Exception ''Snips generic ASR only for english''), s)) \<and>
   (activeLanguage env = ''en'' \<longrightarrow>
      fst (snips_onStart env s) = Inr () \<and>
      subprocesses (snd (snips_onStart env s)) =
        subprocesses s @ [(''SnipsASR'', snipsCmd env, True)])"
  by (simp add: snips_onStart_def)

theorem snips_onStart_language_gate_witness:
  "activeLanguage french \<noteq> ''en'' \<and>
   snips_onStart french idle = (Inl (Exception ''Snips generic ASR only for english''), idle) \<and>
   subprocesses (snd (snips_onStart french idle)) = [] \<and>
   activeLanguage english = ''en'' \<and>
   length (subprocesses (snd (snips_onStart english idle))) = 1"
  using snips_onStart_language_gate [of french idle] snips_onStart_language_gate [of english idle]
  by (simp add: french_def english_def idle_def)

lemma digit_cases:
  "d < 10 \<Longrightarrow> d = 0 \<or> d = 1 \<or> d = 2 \<or> d = 3 \<or> d = 4 \<or> d = 5 \<or> d = 6 \<or> d = 7 \<or> d = 8 \<or> d = (9::nat)"
  by arith

lemma digit_value:
  assumes "d < 10"
  shows "of_char (''0123456789'' ! d) - 48 = d"
  using digit_cases [OF assms] by (elim disjE) simp_all

lemma digit_member:
  assumes "d < 10"
  shows "''0123456789'' ! d \<in> set ''0123456789''"
  using assms by (intro nth_mem) simp

lemma digit_zero:
  assumes "d < 10" and "''0123456789'' ! d = CHR ''0''"
  shows "d = 0"
  using digit_cases [OF assms(1)] assms(2) by (elim disjE) simp_all

lemma readDecimal_snoc: "readDecimal (ds @ [c]) = 10 * readDecimal ds + (of_char c - 48)"
  by (simp add: readDecimal_def)

lemma decimal_nonempty: "decimal n \<noteq> []"
  by (subst decimal.simps) simp

lemma readDecimal_decimal: "readDecimal (decimal n) = n"
proof (induction n rule: decimal.induct)
  case (1 n)
  show ?case
  proof (cases "n < 10")
    case True
    then show ?thesis
      by (subst decimal.simps) (simp add: readDecimal_def digit_value)
  next
    case False
    with 1 have "readDecimal (decimal (n div 10)) = n div 10" by simp
    with False show ?thesis
      by (subst decimal.simps) (simp add: readDecimal_snoc digit_value)
  qed
qed

lemma decimal_digits: "set (decimal n) \<subseteq> set ''0123456789''"
proof (induction n rule: decimal.induct)
  case (1 n)
  show ?case
  proof (cases "n < 10")
    case True
    then show ?thesis
      using digit_member [of n] by (subst decimal.simps) simp
  next
    case False
    with 1 have "set (decimal (n div 10)) \<subseteq> set ''0123456789''" by simp
    with False show ?thesis
      using digit_member [of "n mod 10"] by (subst decimal.simps) simp
  qed
qed

lemma decimal_leading_zero: "hd (decimal n) = CHR ''0'' \<Longrightarrow> n = 0"
proof (induction n rule: decimal.induct)
  case (1 n)
  show ?case
  proof (cases "n < 10")
    case True
    with 1(2) have "''0123456789'' ! n = CHR ''0''"
      by (subst (asm) decimal.simps) simp
    with True show ?thesis by (rule digit_zero)
  next
    case False
    with 1(2) have "hd (decimal (n div 10)) = CHR ''0''"
      by (subst (asm) decimal.simps) (simp add: decimal_nonempty)
    with 1(1) False have "n div 10 = 0" by simp
    with False show ?thesis by simp
  qed
qed

text \<open>
  Claim C8. The command line is a function of what the engine reads from its managers,
  and it is exactly this: \<open>snips-asr\<close>, the assistant directory, the broker's host and
  port, then the user name and password if and only if a broker user is configured, then
  the certificate file if and only if one is configured, then the model directory and the
  partial-results flag. \<open>str\<close> inserts a string as it is and a natural number as its
  decimal digits without leading zeros; a value is configured when it is a non-empty
  string or a non-zero integer. So the parts that are always there are contained in the
  command line, the optional parts are contained when configured, and with neither
  configured the command line is the fixed parts alone. Under \<open>en\<close>, \<open>onStart\<close>
  starts the subprocess \<open>SnipsASR\<close> with this command line and automatic restart.
\<close>

theorem snips_command_line:
  "snipsCmd env =
     ''snips-asr --assistant '' @ rootDir env @ ''/assistant --mqtt ''
       @ str (getAliceConfigByName env ''mqttHost'') @ '':''
       @ str (getAliceConfigByName env ''mqttPort'')
       @ (if truthy (getAliceConfigByName env ''mqttUser'')
          then '' --mqtt-username '' @ str (getAliceConfigByName env ''mqttUser'')
                 @ '' --mqtt-password '' @ str (getAliceConfigByName env ''mqttPassword'')
          else [])
       @ (if truthy (getAliceConfigByName env ''mqttTLSFile'')
          then '' --mqtt-tls-cafile '' @ str (getAliceConfigByName env ''mqttTLSFile'')
          else [])
       @ '' --model /usr/share/snips/snips-asr-model-en-500MB --partial'' \<and>
   (\<forall>t. str (PStr t) = t) \<and>
   (\<forall>n. readDecimal (str (PInt (int n))) = n \<and>
        set (str (PInt (int n))) \<subseteq> set ''0123456789'' \<and>
        str (PInt (int n)) \<noteq> [] \<and>
        (hd (str (PInt (int n))) = CHR ''0'' \<longrightarrow> n = 0)) \<and>
   (\<forall>i. i < 0 \<longrightarrow> str (PInt i) = CHR ''-'' # str (PInt (- i))) \<and>
   str PNone = ''None'' \<and>
   (\<forall>t. truthy (PStr t) = (t \<noteq> [])) \<and> (\<forall>i. truthy (PInt i) = (i \<noteq> 0)) \<and> \<not> truthy PNone \<and>
   sublist (''--assistant '' @ rootDir env @ ''/assistant'') (snipsCmd env) \<and>
   sublist (''--mqtt '' @ str (getAliceConfigByName env ''mqttHost'') @ '':''
              @ str (getAliceConfigByName env ''mqttPort'')) (snipsCmd env) \<and>
   suffix '' --model /usr/share/snips/snips-asr-model-en-500MB --partial'' (snipsCmd env) \<and>
   (truthy (getAliceConfigByName env ''mqttUser'') \<longrightarrow>
      sublist ('' --mqtt-username '' @ str (getAliceConfigByName env ''mqttUser'')
                 @ '' --mqtt-password '' @ str (getAliceConfigByName env ''mqttPassword''))
        (snipsCmd env)) \<and>
   (truthy (getAliceConfigByName env ''mqttTLSFile'') \<longrightarrow>
      sublist ('' --mqtt-tls-cafile '' @ str (getAliceConfigByName env ''mqttTLSFile''))
        (snipsCmd env)) \<and>
   (\<not> truthy (getAliceConfigByName env ''mqttUser'') \<longrightarrow>
      \<not> truthy (getAliceConfigByName env ''mqttTLSFile'') \<longrightarrow>
      snipsCmd env =
        ''snips-asr --assistant '' @ rootDir env @ ''/assistant --mqtt ''
          @ str (getAliceConfigByName env ''mqttHost'') @ '':''
          @ str (getAliceConfigByName env ''mqttPort'')
          @ '' --model /usr/share/snips/snips-asr-model-en-500MB --partial'') \<and>
   (activeLanguage env = ''en'' \<longrightarrow>
      snips_onStart env s =
        (Inr (), s\<lparr>subprocesses := subprocesses s @ [(''SnipsASR'', snipsCmd env, True)]\<rparr>))"
proof -
  let ?cfg = "getAliceConfigByName env"
  let ?A = "''--assistant '' @ rootDir env @ ''/assistant''"
  let ?M = "''--mqtt '' @ str (?cfg ''mqttHost'') @ '':'' @ str (?cfg ''mqttPort'')"
  let ?C = "'' --mqtt-username '' @ str (?cfg ''mqttUser'') @ '' --mqtt-password ''
              @ str (?cfg ''mqttPassword'')"
  let ?F = "'' --mqtt-tls-cafile '' @ str (?cfg ''mqttTLSFile'')"
  let ?T = "'' --model /usr/share/snips/snips-asr-model-en-500MB --partial''"
  define creds where "creds = (if truthy (?cfg ''mqttUser'') then ?C else [])"
  define ca where "ca = (if truthy (?cfg ''mqttTLSFile'') then ?F else [])"
  have shape: "snipsCmd env =
     ''snips-asr --assistant '' @ rootDir env @ ''/assistant --mqtt ''
       @ str (?cfg ''mqttHost'') @ '':'' @ str (?cfg ''mqttPort'')
       @ (if truthy (?cfg ''mqttUser'') then ?C else [])
       @ (if truthy (?cfg ''mqttTLSFile'') then ?F else [])
       @ ?T"
    by (simp add: snipsCmd_def Let_def)
  have seg: "snipsCmd env = ''snips-asr '' @ ?A @ '' '' @ ?M @ creds @ ca @ ?T"
    by (simp add: snipsCmd_def Let_def creds_def ca_def)
  have strs: "\<forall>t. str (PStr t) = t"
    by simp
  have ints: "\<forall>n. readDecimal (str (PInt (int n))) = n \<and>
        set (str (PInt (int n))) \<subseteq> set ''0123456789'' \<and>
        str (PInt (int n)) \<noteq> [] \<and>
        (hd (str (PInt (int n))) = CHR ''0'' \<longrightarrow> n = 0)"
    using readDecimal_decimal decimal_digits decimal_nonempty decimal_leading_zero by simp
  have negs: "(\<forall>i. i < 0 \<longrightarrow> str (PInt i) = CHR ''-'' # str (PInt (- i))) \<and> str PNone = ''None''"
    by simp
  have truth: "(\<forall>t. truthy (PStr t) = (t \<noteq> [])) \<and> (\<forall>i. truthy (PInt i) = (i \<noteq> 0)) \<and> \<not> truthy PNone"
    by simp
  have "snipsCmd env = ''snips-asr '' @ ?A @ ('' '' @ ?M @ creds @ ca @ ?T)"
    by (simp only: seg append_assoc)
  then have sA: "sublist ?A (snipsCmd env)"
    by (simp only: sublist_appendI)
  have "snipsCmd env = (''snips-asr '' @ ?A @ '' '') @ ?M @ (creds @ ca @ ?T)"
    by (simp only: seg append_assoc)
  then have sM: "sublist ?M (snipsCmd env)"
    by (simp only: sublist_appendI)
  have "snipsCmd env = (''snips-asr '' @ ?A @ '' '' @ ?M @ creds @ ca) @ ?T"
    by (simp only: seg append_assoc)
  then have sT: "suffix ?T (snipsCmd env)"
    by (rule suffixI)
  have sC: "sublist ?C (snipsCmd env)" if "truthy (?cfg ''mqttUser'')"
  proof -
    have "snipsCmd env = (''snips-asr '' @ ?A @ '' '' @ ?M) @ ?C @ (ca @ ?T)"
      using that by (simp only: seg creds_def if_True append_assoc)
    then show ?thesis by (simp only: sublist_appendI)
  qed
  have sF: "sublist ?F (snipsCmd env)" if "truthy (?cfg ''mqttTLSFile'')"
  proof -
    have "snipsCmd env = (''snips-asr '' @ ?A @ '' '' @ ?M @ creds) @ ?F @ ?T"
      using that by (simp only: seg ca_def if_True append_assoc)
    then show ?thesis by (simp only: sublist_appendI)
  qed
  have bare: "snipsCmd env =
        ''snips-asr --assistant '' @ rootDir env @ ''/assistant --mqtt ''
          @ str (?cfg ''mqttHost'') @ '':'' @ str (?cfg ''mqttPort'') @ ?T"
    if "\<not> truthy (?cfg ''mqttUser'')" "\<not> truthy (?cfg ''mqttTLSFile'')"
    using that by (simp add: snipsCmd_def Let_def)
  have launch: "snips_onStart env s =
        (Inr (), s\<lparr>subprocesses := subprocesses s @ [(''SnipsASR'', snipsCmd env, True)]\<rparr>)"
    if "activeLanguage env = ''en''"
    using that by (simp add: snips_onStart_def)
  show ?thesis
    using shape strs ints negs truth sA sM sT sC sF bare launch by blast
qed

theorem snips_command_line_witness:
  "truthy (getAliceConfigByName english ''mqttUser'') \<and>
   \<not> truthy (getAliceConfigByName english ''mqttTLSFile'') \<and>
   snipsCmd english =
     ''snips-asr --assistant /home/pi/ProjectAlice/assistant --mqtt localhost:1883 --mqtt-username alice --mqtt-password secret --model /usr/share/snips/snips-asr-model-en-500MB --partial'' \<and>
   \<not> truthy (getAliceConfigByName anonymous ''mqttUser'') \<and>
   truthy (getAliceConfigByName anonymous ''mqttTLSFile'') \<and>
   snipsCmd anonymous =
     ''snips-asr --assistant /home/pi/ProjectAlice/assistant --mqtt localhost:1883 --mqtt-tls-cafile /etc/ca.crt --model /usr/share/snips/snips-asr-model-en-500MB --partial'' \<and>
   \<not> truthy (getAliceConfigByName unsecured ''mqttUser'') \<and>
   \<not> truthy (getAliceConfigByName unsecured ''mqttTLSFile'') \<and>
   snipsCmd unsecured =
     ''snips-asr --assistant /home/pi/ProjectAlice/assistant --mqtt localhost:1883 --model /usr/share/snips/snips-asr-model-en-500MB --partial'' \<and>
   str (PInt 1883) = ''1883'' \<and> readDecimal ''1883'' = 1883 \<and>
   activeLanguage english = ''en'' \<and>
   snips_onStart english idle =
     (Inr (), idle\<lparr>subprocesses := [(''SnipsASR'', snipsCmd english, True)]\<rparr>)"
proof -
  have port: "str (PInt 1883) = ''1883''"
    by (simp add: decimal.simps)
  have e: "rootDir english = ''/home/pi/ProjectAlice''"
      "getAliceConfigByName english ''mqttHost'' = PStr ''localhost''"
      "getAliceConfigByName english ''mqttPort'' = PInt 1883"
      "getAliceConfigByName english ''mqttUser'' = PStr ''alice''"
      "getAliceConfigByName english ''mqttPassword'' = PStr ''secret''"
      "getAliceConfigByName english ''mqttTLSFile'' = PStr []"
      "activeLanguage english = ''en''"
    by (simp_all add: english_def localBroker_def)
  have a: "rootDir anonymous = ''/home/pi/ProjectAlice''"
      "getAliceConfigByName anonymous ''mqttHost'' = PStr ''localhost''"
      "getAliceConfigByName anonymous ''mqttPort'' = PInt 1883"
      "getAliceConfigByName anonymous ''mqttUser'' = PStr []"
      "getAliceConfigByName anonymous ''mqttTLSFile'' = PStr ''/etc/ca.crt''"
    by (simp_all add: anonymous_def english_def localBroker_def)
  have u: "rootDir unsecured = ''/home/pi/ProjectAlice''"
      "getAliceConfigByName unsecured ''mqttHost'' = PStr ''localhost''"
      "getAliceConfigByName unsecured ''mqttPort'' = PInt 1883"
      "getAliceConfigByName unsecured ''mqttUser'' = PStr []"
      "getAliceConfigByName unsecured ''mqttTLSFile'' = PStr []"
    by (simp_all add: unsecured_def english_def localBroker_def)
  note E = snips_command_line [of english idle]
  note A = snips_command_line [of anonymous idle]
  note U = snips_command_line [of unsecured idle]
  have ce: "snipsCmd english =
     ''snips-asr --assistant /home/pi/ProjectAlice/assistant --mqtt localhost:1883 --mqtt-username alice --mqtt-password secret --model /usr/share/snips/snips-asr-model-en-500MB --partial''"
    using E [THEN conjunct1] by (simp add: e decimal.simps)
  have ca: "snipsCmd anonymous =
     ''snips-asr --assistant /home/pi/ProjectAlice/assistant --mqtt localhost:1883 --mqtt-tls-cafile /etc/ca.crt --model /usr/share/snips/snips-asr-model-en-500MB --partial''"
    using A [THEN conjunct1] by (simp add: a decimal.simps)
  have tu: "\<not> truthy (getAliceConfigByName unsecured ''mqttUser'')"
       "\<not> truthy (getAliceConfigByName unsecured ''mqttTLSFile'')"
    by (simp_all add: u)
  have "snipsCmd unsecured =
        ''snips-asr --assistant '' @ rootDir unsecured @ ''/assistant --mqtt ''
          @ str (getAliceConfigByName unsecured ''mqttHost'') @ '':''
          @ str (getAliceConfigByName unsecured ''mqttPort'')
          @ '' --model /usr/share/snips/snips-asr-model-en-500MB --partial''"
    using U tu by blast
  then have cu: "snipsCmd unsecured =
     ''snips-asr --assistant /home/pi/ProjectAlice/assistant --mqtt localhost:1883 --model /usr/share/snips/snips-asr-model-en-500MB --partial''"
    by (simp add: u decimal.simps)
  have rd: "readDecimal ''1883'' = 1883"
    using E port by (metis int_ops(3) of_nat_numeral)
  have l: "snips_onStart english idle =
     (Inr (), idle\<lparr>subprocesses := subprocesses idle @ [(''SnipsASR'', snipsCmd english, True)]\<rparr>)"
    using E e(7) by blast
  have s0: "subprocesses idle = []"
    by (simp add: idle_def)
  have t: "truthy (getAliceConfigByName english ''mqttUser'')"
      "\<not> truthy (getAliceConfigByName english ''mqttTLSFile'')"
      "\<not> truthy (getAliceConfigByName anonymous ''mqttUser'')"
      "truthy (getAliceConfigByName anonymous ''mqttTLSFile'')"
    by (simp_all add: e a)
  show ?thesis
    using t ce ca tu cu port rd e(7) l by (simp only: s0 append_Nil simp_thms)
qed

end
